theory Spec2Isabelle
  imports Main
begin

section \<open>StatusPulse: the monitoring engine\<close>

text \<open>
  A shallow embedding of \<^verbatim>\<open>schp_client.py\<close> and \<^verbatim>\<open>monitor_engine.py\<close>.
  Python dictionaries whose keys are fixed by the code are records; dictionaries read from
  JSON are association lists (a Python dict never holds a key twice; no theorem below needs
  that). Strings are \<open>string\<close>. Timestamps, which the code keeps as ISO-8601 text and turns
  back into \<^verbatim>\<open>datetime\<close> values, are integers: microseconds since the epoch, the
  resolution of \<^verbatim>\<open>datetime\<close>. Exceptions are values of \<open>error\<close>.
\<close>

subsection \<open>Python values\<close>

datatype error =
    AttributeError
  | KeyError
  | StoreError string
  | TransportError string
  | SMTPError string

fun error_text :: "error \<Rightarrow> string" where
  "error_text AttributeError = ''object has no attribute''"
| "error_text KeyError = ''key''"
| "error_text (StoreError s) = s"
| "error_text (TransportError s) = s"
| "error_text (SMTPError s) = s"

text \<open>JSON as \<^verbatim>\<open>response.json()\<close> returns it (numbers restricted to integers).\<close>

datatype json =
    JNull
  | JBool bool
  | JNum int
  | JStr string
  | JArr "json list"
  | JObj "(string \<times> json) list"

text \<open>Python truthiness, as \<^verbatim>\<open>not x\<close>, \<^verbatim>\<open>all\<close> and \<^verbatim>\<open>any\<close> use it.\<close>

fun truthy :: "json \<Rightarrow> bool" where
  "truthy JNull = False"
| "truthy (JBool b) = b"
| "truthy (JNum n) = (n \<noteq> 0)"
| "truthy (JStr s) = (s \<noteq> [])"
| "truthy (JArr xs) = (xs \<noteq> [])"
| "truthy (JObj kvs) = (kvs \<noteq> [])"

text \<open>\<^verbatim>\<open>str(n)\<close> for an integer: decimal digits, a minus sign when negative.\<close>

function digits :: "nat \<Rightarrow> string" where
  "digits n =
     (if n < 10 then [char_of (48 + n)]
      else digits (n div 10) @ [char_of (48 + n mod 10)])"
  by pat_completeness auto
termination
  by (relation "measure (\<lambda>n. n)") auto

definition str :: "int \<Rightarrow> string" where
  "str i = (if i < 0 then CHR ''-'' # digits (nat (- i)) else digits (nat i))"



definition upper_char :: "char \<Rightarrow> char" where
  "upper_char c =
     (if 97 \<le> (of_char c :: nat) \<and> (of_char c :: nat) \<le> 122
      then char_of ((of_char c :: nat) - 32) else c)"

definition upper :: "string \<Rightarrow> string" where
  "upper s = map upper_char s"

text \<open>\<^verbatim>\<open>', '.join(xs)\<close>.\<close>

fun join_comma :: "string list \<Rightarrow> string" where
  "join_comma [] = []"
| "join_comma [x] = x"
| "join_comma (x # y # ys) = x @ '', '' @ join_comma (y # ys)"

subsection \<open>The SCHP client (\<^verbatim>\<open>schp_client.py\<close>)\<close>

record validation =
  valid :: bool
  verror :: "string option"

text \<open>The loop of \<^verbatim>\<open>_validate_schp_response\<close> over \<^verbatim>\<open>data["capabilities"].items()\<close>.\<close>

fun validate_capabilities :: "(string \<times> json) list \<Rightarrow> validation" where
  "validate_capabilities [] = \<lparr>valid = True, verror = None\<rparr>"
| "validate_capabilities ((name, cap) # rest) =
     (case cap of
        JObj kvs \<Rightarrow>
          (case map_of kvs ''ok'' of
             None \<Rightarrow>
               \<lparr>valid = False,
                verror = Some (''Capability '' @ [CHR 0x27] @ name @ [CHR 0x27] @ '' missing ''
                               @ [CHR 0x27] @ ''ok'' @ [CHR 0x27] @ '' field'')\<rparr>
           | Some (JBool b) \<Rightarrow> validate_capabilities rest
           | Some _ \<Rightarrow>
               \<lparr>valid = False,
                verror = Some (''Capability '' @ [CHR 0x27] @ name @ [CHR 0x27] @ '' ''
                               @ [CHR 0x27] @ ''ok'' @ [CHR 0x27] @ '' must be boolean'')\<rparr>)
      | _ \<Rightarrow>
          \<lparr>valid = False,
           verror = Some (''Capability '' @ [CHR 0x27] @ name @ [CHR 0x27]
                          @ '' must be object'')\<rparr>)"

definition validate_schp_response :: "json \<Rightarrow> validation" where
  "validate_schp_response data =
     (case data of
        JObj kvs \<Rightarrow>
          (case map_of kvs ''capabilities'' of
             None \<Rightarrow>
               \<lparr>valid = False,
                verror = Some (''Missing '' @ [CHR 0x27] @ ''capabilities'' @ [CHR 0x27]
                               @ '' field'')\<rparr>
           | Some (JObj caps) \<Rightarrow> validate_capabilities caps
           | Some _ \<Rightarrow>
               \<lparr>valid = False,
                verror = Some ([CHR 0x27] @ ''capabilities'' @ [CHR 0x27]
                               @ '' must be object'')\<rparr>)
      | _ \<Rightarrow> \<lparr>valid = False, verror = Some ''Response must be object''\<rparr>)"

text \<open>\<^verbatim>\<open>c.get("ok", d)\<close>: an attribute error when \<open>c\<close> is not a dict.\<close>

definition get_ok :: "json \<Rightarrow> json \<Rightarrow> error + json" where
  "get_ok c d =
     (case c of
        JObj kvs \<Rightarrow> Inr (case map_of kvs ''ok'' of None \<Rightarrow> d | Some v \<Rightarrow> v)
      | _ \<Rightarrow> Inl AttributeError)"

text \<open>
  \<^verbatim>\<open>all(c.get("ok", False) for c in caps.values())\<close> and the same with \<^verbatim>\<open>any\<close>:
  both stop at the first element that decides them.
\<close>

fun all_ok :: "json list \<Rightarrow> error + bool" where
  "all_ok [] = Inr True"
| "all_ok (c # cs) =
     (case get_ok c (JBool False) of
        Inl e \<Rightarrow> Inl e
      | Inr v \<Rightarrow> if truthy v then all_ok cs else Inr False)"

fun any_ok :: "json list \<Rightarrow> error + bool" where
  "any_ok [] = Inr False"
| "any_ok (c # cs) =
     (case get_ok c (JBool False) of
        Inl e \<Rightarrow> Inl e
      | Inr v \<Rightarrow> if truthy v then Inr True else any_ok cs)"

text \<open>
  \<^verbatim>\<open>get_overall_status(data)\<close>, \<open>data\<close> a dict. The result is a string, or whatever JSON
  value the document has under \<^verbatim>\<open>"status"\<close>.
\<close>

definition get_overall_status :: "(string \<times> json) list \<Rightarrow> error + json" where
  "get_overall_status data =
     (if data = [] \<or> map_of data ''capabilities'' = None then Inr (JStr ''unknown'')
      else (case map_of data ''status'' of
        Some s \<Rightarrow> Inr s
      | None \<Rightarrow>
          (case map_of data ''capabilities'' of
             None \<Rightarrow> Inl KeyError
           | Some caps \<Rightarrow>
               if \<not> truthy caps then Inr (JStr ''unknown'')
               else (case caps of
                 JObj entries \<Rightarrow>
                   (case all_ok (map snd entries) of
                      Inl e \<Rightarrow> Inl e
                    | Inr a \<Rightarrow>
                        (case any_ok (map snd entries) of
                           Inl e \<Rightarrow> Inl e
                         | Inr b \<Rightarrow>
                             if a then Inr (JStr ''operational'')
                             else if b then Inr (JStr ''degraded'')
                             else Inr (JStr ''down'')))
               | _ \<Rightarrow> Inl AttributeError))))"



text \<open>Whether a capability entry has \<^verbatim>\<open>"ok": true\<close>.\<close>

definition cap_is_ok :: "json \<Rightarrow> bool" where
  "cap_is_ok c = (case c of JObj kvs \<Rightarrow> map_of kvs ''ok'' = Some (JBool True) | _ \<Rightarrow> False)"

subsection \<open>The world the engine runs in\<close>

text \<open>
  The engine talks to a store (Supabase tables), the clock, HTTP endpoints and an SMTP
  server. The tables are lists of rows. What the outside answers is fixed by an
  environment: the \<open>k\<close>-th reading of the clock, whether the \<open>k\<close>-th store call raises, and
  what the \<open>k\<close>-th outbound request meets. The world counts the calls made so far and keeps
  the outbound requests in order.
\<close>

type_synonym time = int

record monitor =
  mon_id :: string
  mon_name :: string
  mon_url :: string
  mon_method :: string
  mon_expected_status :: int
  mon_timeout_seconds :: int
  mon_check_interval_seconds :: int
  mon_is_active :: bool
  mon_current_status :: string
  mon_last_checked_at :: "time option"
  mon_updated_at :: "time option"
  mon_last_status_change_at :: "time option"

record check_row =
  chk_monitor_id :: string
  chk_status_code :: "int option"
  chk_response_time_ms :: "int option"
  chk_is_up :: bool
  chk_error_message :: "string option"
  chk_checked_at :: time

record incident =
  inc_id :: nat
  inc_monitor_id :: string
  inc_started_at :: time
  inc_resolved_at :: "time option"
  inc_duration_seconds :: "int option"
  inc_is_resolved :: bool

record alert_config =
  ac_id :: string
  ac_monitor_id :: string
  ac_alert_type :: string
  ac_destination :: string
  ac_is_active :: bool

record alert_history_row =
  ah_alert_config_id :: string
  ah_monitor_id :: string
  ah_alert_type :: string
  ah_message :: string
  ah_was_successful :: bool

text \<open>What a request meets: a response, or one of the exceptions the code tells apart.\<close>

datatype http_outcome =
    Response int int
  | TimeoutException
  | ConnectError string
  | TooManyRedirects
  | OtherException string

datatype schp_outcome =
    SchpResponse int "json option" int
  | SchpTimeout
  | SchpConnectError string
  | SchpOtherException string

datatype webhook_outcome =
    WebhookResponse int
  | WebhookException string

text \<open>
  Outbound requests: an HTTP probe (verb, URL, timeout), a GET of a capability document,
  a message handed to the SMTP server (recipient, monitor name, URL, status), a webhook
  POST (destination, monitor name, URL, status, timestamp).
\<close>

datatype effect =
    HttpRequest string string int
  | SchpGet string int
  | SmtpSend string string string string
  | WebhookPost string string string string time

record env =
  clock :: "nat \<Rightarrow> time"
  store_fails :: "nat \<Rightarrow> string option"
  http_reply :: "nat \<Rightarrow> string \<Rightarrow> string \<Rightarrow> int \<Rightarrow> http_outcome"
  schp_reply :: "nat \<Rightarrow> string \<Rightarrow> int \<Rightarrow> schp_outcome"
  smtp_email :: string
  smtp_password :: string
  smtp_reply :: "nat \<Rightarrow> string \<Rightarrow> string option"
  webhook_reply :: "nat \<Rightarrow> string \<Rightarrow> webhook_outcome"

record world =
  monitors :: "monitor list"
  checks :: "check_row list"
  incidents :: "incident list"
  alert_configs :: "alert_config list"
  alert_history :: "alert_history_row list"
  store_calls :: nat
  clock_reads :: nat
  effects :: "effect list"

type_synonym 'a action = "world \<Rightarrow> (error + 'a) \<times> world"

text \<open>Sequencing: an exception of the first action ends the whole.\<close>

definition seq :: "'a action \<Rightarrow> ('a \<Rightarrow> 'b action) \<Rightarrow> 'b action" where
  "seq m f w = (case m w of (Inl e, w') \<Rightarrow> (Inl e, w') | (Inr x, w') \<Rightarrow> f x w')"

definition done_with :: "'a \<Rightarrow> 'a action" where
  "done_with x w = (Inr x, w)"

text \<open>\<^verbatim>\<open>datetime.now(timezone.utc)\<close>.\<close>

definition now :: "env \<Rightarrow> world \<Rightarrow> time \<times> world" where
  "now en w = (clock en (clock_reads w), w\<lparr>clock_reads := Suc (clock_reads w)\<rparr>)"

text \<open>
  \<^verbatim>\<open>....execute()\<close> on a store query: the call raises, leaving the tables as they are,
  or the query runs.
\<close>

definition execute :: "env \<Rightarrow> (world \<Rightarrow> 'a \<times> world) \<Rightarrow> 'a action" where
  "execute en q w =
     (let w1 = w\<lparr>store_calls := Suc (store_calls w)\<rparr> in
      case store_fails en (store_calls w) of
        Some msg \<Rightarrow> (Inl (StoreError msg), w1)
      | None \<Rightarrow> (case q w1 of (x, w2) \<Rightarrow> (Inr x, w2)))"

text \<open>The request goes out and its outcome comes back.\<close>

definition emit :: "effect \<Rightarrow> world \<Rightarrow> world" where
  "emit e w = w\<lparr>effects := effects w @ [e]\<rparr>"

subsection \<open>The checker (\<^verbatim>\<open>check_url\<close>, \<^verbatim>\<open>run_check\<close>)\<close>

record check_result =
  cr_url :: string
  cr_is_up :: bool
  cr_status_code :: "int option"
  cr_response_time_ms :: "int option"
  cr_error_message :: "string option"
  cr_checked_at :: time

text \<open>Lines 53 to 58: \<^verbatim>\<open>HEAD\<close> and \<^verbatim>\<open>POST\<close> are sent as such, anything else as \<^verbatim>\<open>GET\<close>.\<close>

definition http_verb :: "string \<Rightarrow> string" where
  "http_verb method =
     (if method = ''HEAD'' then ''HEAD'' else if method = ''POST'' then ''POST'' else ''GET'')"

definition check_url :: "env \<Rightarrow> string \<Rightarrow> string \<Rightarrow> int \<Rightarrow> int \<Rightarrow> world \<Rightarrow> check_result \<times> world" where
  "check_url en url method expected_status timeout w =
     (case now en w of (t, w1) \<Rightarrow>
      let result = \<lparr>cr_url = url, cr_is_up = False, cr_status_code = None,
                    cr_response_time_ms = None, cr_error_message = None, cr_checked_at = t\<rparr>;
          verb = http_verb method;
          w2 = emit (HttpRequest verb url timeout) w1
      in (case http_reply en (length (effects w1)) verb url timeout of
            Response code ms \<Rightarrow>
              (let r = result\<lparr>cr_status_code := Some code, cr_response_time_ms := Some ms,
                              cr_is_up := (code = expected_status)\<rparr>
               in if \<not> cr_is_up r
                  then (r\<lparr>cr_error_message :=
                            Some (''Expected '' @ str expected_status @ '', got '' @ str code)\<rparr>, w2)
                  else (r, w2))
          | TimeoutException \<Rightarrow>
              (result\<lparr>cr_error_message := Some (''Timeout after '' @ str timeout @ ''s'')\<rparr>, w2)
          | ConnectError msg \<Rightarrow>
              (result\<lparr>cr_error_message := Some (''Connection failed: '' @ take 200 msg)\<rparr>, w2)
          | TooManyRedirects \<Rightarrow>
              (result\<lparr>cr_error_message := Some ''Too many redirects''\<rparr>, w2)
          | OtherException msg \<Rightarrow>
              (result\<lparr>cr_error_message := Some (''Error: '' @ take 200 msg)\<rparr>, w2)))"

definition run_check :: "env \<Rightarrow> string \<Rightarrow> string \<Rightarrow> int \<Rightarrow> int \<Rightarrow> world \<Rightarrow> check_result \<times> world" where
  "run_check en url method expected_status timeout w =
     check_url en url method expected_status timeout w"

subsection \<open>Capability checks (\<^verbatim>\<open>fetch_capabilities\<close>, \<^verbatim>\<open>check_capabilities\<close>)\<close>



record capability_result =
  cap_url :: string
  cap_is_up :: bool
  cap_status :: json
  cap_capabilities :: json
  cap_failed_capabilities :: "string list"
  cap_response_time_ms :: "int option"
  cap_error_message :: "string option"
  cap_checked_at :: time



text \<open>
  \<^verbatim>\<open>save_capability_check_result\<close>: the status code of the row is synthetic, and the
  message falls back on the failed capabilities when there is no (non-empty) error.
\<close>

definition save_capability_check_result :: "env \<Rightarrow> string \<Rightarrow> capability_result \<Rightarrow> unit action" where
  "save_capability_check_result en monitor_id result =
     execute en (\<lambda>w. ((), w\<lparr>checks := checks w @
       [\<lparr>chk_monitor_id = monitor_id,
         chk_status_code = Some (if cap_is_up result then 200 else 503),
         chk_response_time_ms = cap_response_time_ms result, chk_is_up = cap_is_up result,
         chk_error_message =
           (if cap_error_message result \<noteq> None \<and> cap_error_message result \<noteq> Some []
            then cap_error_message result
            else if cap_failed_capabilities result \<noteq> []
            then Some (''Degraded: '' @ join_comma (cap_failed_capabilities result))
            else None),
         chk_checked_at = cap_checked_at result\<rparr>]\<rparr>))"

subsection \<open>Saving a check (\<^verbatim>\<open>save_check_result\<close>)\<close>

definition save_check_result :: "env \<Rightarrow> string \<Rightarrow> check_result \<Rightarrow> unit action" where
  "save_check_result en monitor_id result =
     execute en (\<lambda>w. ((), w\<lparr>checks := checks w @
       [\<lparr>chk_monitor_id = monitor_id, chk_status_code = cr_status_code result,
         chk_response_time_ms = cr_response_time_ms result, chk_is_up = cr_is_up result,
         chk_error_message = cr_error_message result,
         chk_checked_at = cr_checked_at result\<rparr>]\<rparr>))"

subsection \<open>The alert dispatcher (\<^verbatim>\<open>_send_alerts\<close> and the two senders)\<close>

definition send_email_alert :: "env \<Rightarrow> alert_config \<Rightarrow> monitor \<Rightarrow> string \<Rightarrow> unit action" where
  "send_email_alert en alert_config monitor_data status w =
     (if smtp_email en = [] \<or> smtp_password en = [] then (Inr (), w)
      else (case now en w of (t, w1) \<Rightarrow>
        let w2 = emit (SmtpSend (ac_destination alert_config) (mon_name monitor_data)
                         (mon_url monitor_data) status) w1
        in (case smtp_reply en (length (effects w1)) (ac_destination alert_config) of
              None \<Rightarrow> (Inr (), w2)
            | Some msg \<Rightarrow> (Inl (SMTPError msg), w2))))"

text \<open>
  \<^verbatim>\<open>httpx.post\<close> raises on a transport error and returns every response, whatever its
  status code; the code drops the response.
\<close>

definition send_webhook_alert :: "env \<Rightarrow> alert_config \<Rightarrow> monitor \<Rightarrow> string \<Rightarrow> unit action" where
  "send_webhook_alert en alert_config monitor_data status w =
     (case now en w of (t, w1) \<Rightarrow>
        let w2 = emit (WebhookPost (ac_destination alert_config) (mon_name monitor_data)
                         (mon_url monitor_data) status t) w1
        in (case webhook_reply en (length (effects w1)) (ac_destination alert_config) of
              WebhookResponse code \<Rightarrow> (Inr (), w2)
            | WebhookException msg \<Rightarrow> (Inl (TransportError msg), w2)))"

definition insert_alert_history :: "env \<Rightarrow> alert_history_row \<Rightarrow> unit action" where
  "insert_alert_history en row =
     execute en (\<lambda>w. ((), w\<lparr>alert_history := alert_history w @ [row]\<rparr>))"

text \<open>
  The loop over the alert configs. The \<^verbatim>\<open>try\<close> block holds the send and the insert of the
  success record; whatever either raises goes to the \<^verbatim>\<open>except\<close> block, whose own insert
  is unprotected.
\<close>

fun send_alerts_loop :: "env \<Rightarrow> string \<Rightarrow> monitor \<Rightarrow> string \<Rightarrow> alert_config list \<Rightarrow> unit action" where
  "send_alerts_loop en monitor_id monitor_data status [] w = (Inr (), w)"
| "send_alerts_loop en monitor_id monitor_data status (alert # rest) w =
     (case seq (if ac_alert_type alert = ''email''
                then send_email_alert en alert monitor_data status
                else if ac_alert_type alert = ''webhook''
                then send_webhook_alert en alert monitor_data status
                else done_with ())
               (\<lambda>_. insert_alert_history en
                  \<lparr>ah_alert_config_id = ac_id alert, ah_monitor_id = monitor_id,
                   ah_alert_type = ac_alert_type alert,
                   ah_message = mon_name monitor_data @ '' is '' @ upper status,
                   ah_was_successful = True\<rparr>) w of
        (Inr _, w1) \<Rightarrow> send_alerts_loop en monitor_id monitor_data status rest w1
      | (Inl e, w1) \<Rightarrow>
          (case insert_alert_history en
                  \<lparr>ah_alert_config_id = ac_id alert, ah_monitor_id = monitor_id,
                   ah_alert_type = ac_alert_type alert,
                   ah_message = ''Failed: '' @ take 200 (error_text e),
                   ah_was_successful = False\<rparr> w1 of
             (Inl e', w2) \<Rightarrow> (Inl e', w2)
           | (Inr _, w2) \<Rightarrow> send_alerts_loop en monitor_id monitor_data status rest w2))"

definition send_alerts :: "env \<Rightarrow> string \<Rightarrow> monitor \<Rightarrow> string \<Rightarrow> unit action" where
  "send_alerts en monitor_id monitor_data status =
     seq (execute en (\<lambda>w. (filter (\<lambda>a. ac_monitor_id a = monitor_id \<and> ac_is_active a)
                                (alert_configs w), w)))
         (\<lambda>alerts. send_alerts_loop en monitor_id monitor_data status alerts)"

subsection \<open>The state machine (\<^verbatim>\<open>update_monitor_status\<close>)\<close>

text \<open>
  \<^verbatim>\<open>int(delta.total_seconds())\<close> for a difference of \<open>d\<close> microseconds: whole seconds,
  rounded towards zero. (\<^verbatim>\<open>total_seconds\<close> is a float; it separates microseconds for
  any difference below a century, so the model computes with integers.)
\<close>

definition whole_seconds :: "int \<Rightarrow> int" where
  "whole_seconds d = (if 0 \<le> d then d div 1000000 else - ((- d) div 1000000))"

text \<open>The id a new incident row gets from the store: one no row has yet.\<close>

definition fresh_incident_id :: "incident list \<Rightarrow> nat" where
  "fresh_incident_id rows = Suc (fold max (map inc_id rows) 0)"

definition insert_incident :: "env \<Rightarrow> string \<Rightarrow> time \<Rightarrow> unit action" where
  "insert_incident en monitor_id t =
     execute en (\<lambda>w. ((), w\<lparr>incidents := incidents w @
       [\<lparr>inc_id = fresh_incident_id (incidents w), inc_monitor_id = monitor_id,
         inc_started_at = t, inc_resolved_at = None, inc_duration_seconds = None,
         inc_is_resolved = False\<rparr>]\<rparr>))"

definition resolve_row :: "nat \<Rightarrow> time \<Rightarrow> int \<Rightarrow> incident \<Rightarrow> incident" where
  "resolve_row ident t duration row =
     (if inc_id row = ident
      then row\<lparr>inc_resolved_at := Some t, inc_duration_seconds := Some duration,
               inc_is_resolved := True\<rparr>
      else row)"

text \<open>The loop over the open incidents; each round reads the clock again for the duration.\<close>

fun resolve_incidents :: "env \<Rightarrow> time \<Rightarrow> incident list \<Rightarrow> unit action" where
  "resolve_incidents en t [] w = (Inr (), w)"
| "resolve_incidents en t (incident # rest) w =
     (case now en w of (t2, w1) \<Rightarrow>
        let duration = whole_seconds (t2 - inc_started_at incident) in
        (case execute en (\<lambda>w. ((), w\<lparr>incidents :=
                 map (resolve_row (inc_id incident) t duration) (incidents w)\<rparr>)) w1 of
           (Inl e, w2) \<Rightarrow> (Inl e, w2)
         | (Inr _, w2) \<Rightarrow> resolve_incidents en t rest w2))"

definition apply_update :: "string \<Rightarrow> string \<Rightarrow> time \<Rightarrow> bool \<Rightarrow> monitor \<Rightarrow> monitor" where
  "apply_update monitor_id new_status t changed row =
     (if mon_id row = monitor_id
      then (let row' = row\<lparr>mon_current_status := new_status, mon_last_checked_at := Some t,
                            mon_updated_at := Some t\<rparr>
            in if changed then row'\<lparr>mon_last_status_change_at := Some t\<rparr> else row')
      else row)"

text \<open>
  Lines 182 to 212, the body of \<^verbatim>\<open>if old_status != new_status and old_status != "unknown"\<close>
  after the assignment to \<^verbatim>\<open>update_data\<close>: the incident and the alerts.
\<close>

definition status_changed :: "env \<Rightarrow> string \<Rightarrow> monitor \<Rightarrow> string \<Rightarrow> string \<Rightarrow> time \<Rightarrow> unit action" where
  "status_changed en monitor_id monitor old_status new_status t =
     (if new_status = ''down'' then
        seq (insert_incident en monitor_id t)
            (\<lambda>_. send_alerts en monitor_id monitor ''down'')
      else if new_status = ''up'' \<and> old_status = ''down'' then
        seq (execute en (\<lambda>w. (filter (\<lambda>i. inc_monitor_id i = monitor_id
                                         \<and> \<not> inc_is_resolved i) (incidents w), w)))
            (\<lambda>open_incidents.
               seq (resolve_incidents en t open_incidents)
                   (\<lambda>_. send_alerts en monitor_id monitor ''up''))
      else done_with ())"

text \<open>What follows the lookup of the monitor row.\<close>

definition update_found :: "env \<Rightarrow> string \<Rightarrow> bool \<Rightarrow> monitor \<Rightarrow> unit action" where
  "update_found en monitor_id is_up monitor w0 =
     (case now en w0 of (t, w1) \<Rightarrow>
        let old_status = mon_current_status monitor;
            new_status = (if is_up then ''up'' else ''down'');
            changed = (old_status \<noteq> new_status \<and> old_status \<noteq> ''unknown'')
        in seq (if changed
                then status_changed en monitor_id monitor old_status new_status t
                else done_with ())
               (\<lambda>_. execute en (\<lambda>w. ((), w\<lparr>monitors :=
                       map (apply_update monitor_id new_status t changed) (monitors w)\<rparr>)))
               w1)"

definition update_monitor_status :: "env \<Rightarrow> string \<Rightarrow> bool \<Rightarrow> unit action" where
  "update_monitor_status en monitor_id is_up =
     seq (execute en (\<lambda>w. (find (\<lambda>m. mon_id m = monitor_id) (monitors w), w)))
       (\<lambda>found. case found of
          None \<Rightarrow> done_with ()
        | Some monitor \<Rightarrow> update_found en monitor_id is_up monitor)"

subsection \<open>The scheduler (\<^verbatim>\<open>run_all_checks\<close>)\<close>

record cycle_result =
  res_monitor_name :: string
  res_check :: check_result

text \<open>
  Lines 336 to 342: whether the loop skips the monitor. The clock is read only when the
  monitor has been checked before; \<^verbatim>\<open>elapsed < check_interval_seconds\<close> compares seconds,
  here microseconds on both sides.
\<close>

definition skip_monitor :: "env \<Rightarrow> monitor \<Rightarrow> world \<Rightarrow> bool \<times> world" where
  "skip_monitor en monitor w =
     (case mon_last_checked_at monitor of
        None \<Rightarrow> (False, w)
      | Some last_check \<Rightarrow>
          (case now en w of (t, w1) \<Rightarrow>
             (t - last_check < mon_check_interval_seconds monitor * 1000000, w1)))"

text \<open>Lines 344 to 360: the check of a due monitor.\<close>

definition check_monitor :: "env \<Rightarrow> monitor \<Rightarrow> cycle_result action" where
  "check_monitor en monitor w =
     (case run_check en (mon_url monitor) (mon_method monitor) (mon_expected_status monitor)
             (mon_timeout_seconds monitor) w of
        (result, w1) \<Rightarrow>
          seq (save_check_result en (mon_id monitor) result)
              (\<lambda>_. seq (update_monitor_status en (mon_id monitor) (cr_is_up result))
                        (\<lambda>_. done_with \<lparr>res_monitor_name = mon_name monitor,
                                         res_check = result\<rparr>)) w1)"

fun run_checks_loop :: "env \<Rightarrow> monitor list \<Rightarrow> cycle_result list \<Rightarrow> cycle_result list action" where
  "run_checks_loop en [] results w = (Inr results, w)"
| "run_checks_loop en (monitor # rest) results w =
     (case skip_monitor en monitor w of
        (True, w1) \<Rightarrow> run_checks_loop en rest results w1
      | (False, w1) \<Rightarrow>
          (case check_monitor en monitor w1 of
             (Inl e, w2) \<Rightarrow> (Inl e, w2)
           | (Inr r, w2) \<Rightarrow> run_checks_loop en rest (results @ [r]) w2))"

definition run_all_checks :: "env \<Rightarrow> cycle_result list action" where
  "run_all_checks en =
     seq (execute en (\<lambda>w. (filter mon_is_active (monitors w), w)))
         (\<lambda>active. run_checks_loop en active [])"

subsection \<open>Reading the trace of outbound requests\<close>



subsection \<open>What the resolving loop does to one row\<close>

text \<open>
  The row \<open>row\<close> after the loop of \<^verbatim>\<open>update_monitor_status\<close> has gone through the open
  incidents \<open>todo\<close> with every store call succeeding, the first round reading the clock for
  the \<open>c\<close>-th time: each round rewrites the rows that carry its incident's id.
\<close>

fun resolved_one :: "env \<Rightarrow> time \<Rightarrow> nat \<Rightarrow> incident list \<Rightarrow> incident \<Rightarrow> incident" where
  "resolved_one en t c [] row = row"
| "resolved_one en t c (incident # rest) row =
     resolved_one en t (Suc c) rest
       (resolve_row (inc_id incident) t
          (whole_seconds (clock en c - inc_started_at incident)) row)"

subsection \<open>The due rule in the specification's words\<close>



subsection \<open>Example documents, environments and worlds\<close>

definition doc_mixed :: "(string \<times> json) list" where
  "doc_mixed =
     [(''capabilities'',
       JObj [(''db'', JObj [(''ok'', JBool True)]),
             (''cache'', JObj [(''ok'', JBool False), (''reason'', JStr ''evicted'')])])]"

text \<open>The same capabilities under an explicit status that contradicts them.\<close>

definition doc_explicit :: "(string \<times> json) list" where
  "doc_explicit = (''status'', JStr ''operational'') # doc_mixed"

text \<open>
  An environment where the store never fails, each reading of the clock is 0.2 s after the
  one before, one host answers 503 and every other 200, no SMTP credentials are set and
  webhooks answer 500.
\<close>

definition env0 :: env where
  "env0 =
     \<lparr>clock = (\<lambda>k. 1000000000 + int k * 200000),
      store_fails = (\<lambda>k. None),
      http_reply = (\<lambda>k verb url timeout.
                      if url = ''https://down.example.com'' then Response 503 40
                      else Response 200 25),
      schp_reply = (\<lambda>k url timeout. SchpResponse 200 (Some (JObj doc_mixed)) 30),
      smtp_email = [],
      smtp_password = [],
      smtp_reply = (\<lambda>k dest. None),
      webhook_reply = (\<lambda>k dest. WebhookResponse 500)\<rparr>"

definition mon_a :: monitor where
  "mon_a =
     \<lparr>mon_id = ''m1'', mon_name = ''API'', mon_url = ''https://down.example.com'',
      mon_method = ''GET'', mon_expected_status = 200, mon_timeout_seconds = 30,
      mon_check_interval_seconds = 300, mon_is_active = True,
      mon_current_status = ''unknown'', mon_last_checked_at = None,
      mon_updated_at = None, mon_last_status_change_at = None\<rparr>"

definition world0 :: world where
  "world0 =
     \<lparr>monitors = [mon_a], checks = [], incidents = [], alert_configs = [],
      alert_history = [], store_calls = 0, clock_reads = 0, effects = []\<rparr>"

text \<open>A paused monitor, as the dashboard leaves it; its "Check Now" button still works.\<close>

definition world_paused :: world where
  "world_paused =
     world0\<lparr>monitors := [mon_a\<lparr>mon_current_status := ''paused'', mon_is_active := False\<rparr>]\<rparr>"

text \<open>A monitor that was up, with one email alert, and the same with one webhook alert.\<close>

definition world_email :: world where
  "world_email =
     world0\<lparr>monitors := [mon_a\<lparr>mon_current_status := ''up''\<rparr>],
            alert_configs := [\<lparr>ac_id = ''a1'', ac_monitor_id = ''m1'', ac_alert_type = ''email'',
                               ac_destination = ''ops@example.com'', ac_is_active = True\<rparr>]\<rparr>"

definition world_webhook :: world where
  "world_webhook =
     world0\<lparr>monitors := [mon_a\<lparr>mon_current_status := ''up''\<rparr>],
            alert_configs := [\<lparr>ac_id = ''a2'', ac_monitor_id = ''m1'', ac_alert_type = ''webhook'',
                               ac_destination = ''https://hooks.example.com/x'',
                               ac_is_active = True\<rparr>]\<rparr>"





text \<open>
  A monitor that is down, with an incident opened 10.9 s before the first reading of the
  clock, an older resolved incident, and an open incident of another monitor.
\<close>

definition world_down :: world where
  "world_down =
     world0\<lparr>monitors := [mon_a\<lparr>mon_current_status := ''down''\<rparr>],
            incidents :=
              [\<lparr>inc_id = 1, inc_monitor_id = ''m1'', inc_started_at = 500000000,
                inc_resolved_at = Some 560000000, inc_duration_seconds = Some 60,
                inc_is_resolved = True\<rparr>,
               \<lparr>inc_id = 2, inc_monitor_id = ''m2'', inc_started_at = 900000000,
                inc_resolved_at = None, inc_duration_seconds = None, inc_is_resolved = False\<rparr>,
               \<lparr>inc_id = 3, inc_monitor_id = ''m1'', inc_started_at = 989100000,
                inc_resolved_at = None, inc_duration_seconds = None,
                inc_is_resolved = False\<rparr>]\<rparr>"



section \<open>Properties\<close>

subsection \<open>Aggregation of a capability document\<close>

lemma valid_caps_all_ok:
  "valid (validate_capabilities caps) \<Longrightarrow>
   all_ok (map snd caps) = Inr (\<forall>c \<in> set (map snd caps). cap_is_ok c)"
  by (induction caps rule: validate_capabilities.induct)
     (auto simp: get_ok_def cap_is_ok_def split: json.splits option.splits bool.splits)

lemma valid_caps_any_ok:
  "valid (validate_capabilities caps) \<Longrightarrow>
   any_ok (map snd caps) = Inr (\<exists>c \<in> set (map snd caps). cap_is_ok c)"
  by (induction caps rule: validate_capabilities.induct)
     (auto simp: get_ok_def cap_is_ok_def split: json.splits option.splits bool.splits)

text \<open>
  C1. For a document with a \<^verbatim>\<open>capabilities\<close> field: when it has a \<^verbatim>\<open>status\<close> field,
  \<^verbatim>\<open>get_overall_status\<close> returns that field's value whatever the capabilities are; when
  it has none and passes \<^verbatim>\<open>_validate_schp_response\<close> (the capabilities are a map \<open>caps\<close>
  of objects with a boolean \<^verbatim>\<open>ok\<close>), the result is \<^verbatim>\<open>unknown\<close> for an empty map,
  \<^verbatim>\<open>operational\<close> when every capability's \<^verbatim>\<open>ok\<close> is true, \<^verbatim>\<open>down\<close> when none is,
  and \<^verbatim>\<open>degraded\<close> otherwise.
\<close>

theorem get_overall_status_aggregation:
  assumes "map_of data ''capabilities'' = Some c"
  shows "(map_of data ''status'' = Some s \<longrightarrow> get_overall_status data = Inr s)
       \<and> (map_of data ''status'' = None \<and> valid (validate_schp_response (JObj data))
            \<and> c = JObj caps
          \<longrightarrow> get_overall_status data =
                Inr (JStr (if caps = [] then ''unknown''
                           else if (\<forall>x \<in> set (map snd caps). cap_is_ok x) then ''operational''
                           else if (\<forall>x \<in> set (map snd caps). \<not> cap_is_ok x) then ''down''
                           else ''degraded'')))"
proof (intro conjI impI)
  from assms have ne: "data \<noteq> []" by auto
  show "get_overall_status data = Inr s" if "map_of data ''status'' = Some s"
    using that assms ne by (simp add: get_overall_status_def)
  show "get_overall_status data =
                Inr (JStr (if caps = [] then ''unknown''
                           else if (\<forall>x \<in> set (map snd caps). cap_is_ok x) then ''operational''
                           else if (\<forall>x \<in> set (map snd caps). \<not> cap_is_ok x) then ''down''
                           else ''degraded''))"
    if h: "map_of data ''status'' = None \<and> valid (validate_schp_response (JObj data))
            \<and> c = JObj caps"
  proof -
    from h have cc: "c = JObj caps" by simp
    from h assms have v: "valid (validate_capabilities caps)"
      unfolding cc by (simp add: validate_schp_response_def)
    from h assms ne valid_caps_all_ok[OF v] valid_caps_any_ok[OF v] show ?thesis
      by (auto simp: get_overall_status_def)
  qed
qed

theorem get_overall_status_aggregation_witness:
  "map_of doc_explicit ''capabilities'' = map_of doc_mixed ''capabilities''
   \<and> map_of doc_explicit ''status'' = Some (JStr ''operational'')
   \<and> get_overall_status doc_explicit = Inr (JStr ''operational'')
   \<and> map_of doc_mixed ''status'' = None
   \<and> valid (validate_schp_response (JObj doc_mixed))
   \<and> map_of doc_mixed ''capabilities''
       = Some (JObj [(''db'', JObj [(''ok'', JBool True)]),
                     (''cache'', JObj [(''ok'', JBool False), (''reason'', JStr ''evicted'')])])
   \<and> get_overall_status doc_mixed = Inr (JStr ''degraded'')"
proof -
  have v: "valid (validate_schp_response (JObj doc_mixed))"
    by (simp add: doc_mixed_def validate_schp_response_def)
  have c: "map_of doc_mixed ''capabilities''
       = Some (JObj [(''db'', JObj [(''ok'', JBool True)]),
                     (''cache'', JObj [(''ok'', JBool False), (''reason'', JStr ''evicted'')])])"
    by (simp add: doc_mixed_def)
  have n: "map_of doc_mixed ''status'' = None"
    by (simp add: doc_mixed_def)
  have c': "map_of doc_explicit ''capabilities''
       = Some (JObj [(''db'', JObj [(''ok'', JBool True)]),
                     (''cache'', JObj [(''ok'', JBool False), (''reason'', JStr ''evicted'')])])"
    by (simp add: doc_explicit_def doc_mixed_def)
  have e: "map_of doc_explicit ''status'' = Some (JStr ''operational'')"
    by (simp add: doc_explicit_def)
  from get_overall_status_aggregation[OF c, of _ "[(''db'', JObj [(''ok'', JBool True)]),
                     (''cache'', JObj [(''ok'', JBool False), (''reason'', JStr ''evicted'')])]"]
       get_overall_status_aggregation[OF c', of "JStr ''operational''"]
       v c n c' e
  show ?thesis
    by (simp add: cap_is_ok_def)
qed

subsection \<open>The checker\<close>

text \<open>
  C2. When the request gets a response with status code \<open>code\<close>, the result of \<^verbatim>\<open>check_url\<close>
  has \<^verbatim>\<open>is_up\<close> true exactly when \<open>code\<close> equals \<^verbatim>\<open>expected_status\<close>; for any other code
  \<^verbatim>\<open>is_up\<close> is false and \<^verbatim>\<open>error_message\<close> is \<^verbatim>\<open>Expected E, got A\<close> with the two
  codes in decimal.
\<close>

theorem check_url_is_up_iff_expected:
  assumes "http_reply en (length (effects w)) (http_verb method) url timeout = Response code ms"
  shows "cr_is_up (fst (check_url en url method expected_status timeout w))
           = (code = expected_status)
       \<and> cr_status_code (fst (check_url en url method expected_status timeout w)) = Some code
       \<and> cr_error_message (fst (check_url en url method expected_status timeout w))
           = (if code = expected_status then None
              else Some (''Expected '' @ str expected_status @ '', got '' @ str code))"
  using assms by (simp add: check_url_def now_def Let_def)

theorem check_url_is_up_iff_expected_witness:
  "http_reply env0 (length (effects world0)) (http_verb ''GET'') ''https://down.example.com'' 30
     = Response 503 40
   \<and> cr_is_up (fst (check_url env0 ''https://down.example.com'' ''GET'' 200 30 world0)) = False
   \<and> cr_status_code (fst (check_url env0 ''https://down.example.com'' ''GET'' 200 30 world0))
       = Some 503
   \<and> cr_error_message (fst (check_url env0 ''https://down.example.com'' ''GET'' 200 30 world0))
       = Some ''Expected 200, got 503''"
proof -
  have h: "http_reply env0 (length (effects world0)) (http_verb ''GET'')
             ''https://down.example.com'' 30 = Response 503 40"
    by (simp add: env0_def)
  have s: "''Expected '' @ str 200 @ '', got '' @ str 503 = ''Expected 200, got 503''"
    by code_simp
  from check_url_is_up_iff_expected[OF h, of 200] h s show ?thesis
    by simp
qed

subsection \<open>Sequencing, store calls and what an action leaves alone\<close>

lemma seq_frame:
  assumes "\<And>w. g (snd (m w)) = g w" and "\<And>x w. g (snd (f x w)) = g w"
  shows "g (snd (seq m f w)) = g w"
proof (cases "m w")
  case (Pair r w')
  with assms(1)[of w] have "g w' = g w" by simp
  with Pair assms(2) show ?thesis
    by (cases r) (simp_all add: seq_def)
qed

lemma done_with_simps [simp]: "fst (done_with x w) = Inr x" "snd (done_with x w) = w"
  by (simp_all add: done_with_def)

lemma now_simps [simp]:
  "fst (now en w) = clock en (clock_reads w)"
  "snd (now en w) = w\<lparr>clock_reads := Suc (clock_reads w)\<rparr>"
  by (simp_all add: now_def)

lemma execute_ok:
  "store_fails en (store_calls w) = None \<Longrightarrow>
   execute en q w = (Inr (fst (q (w\<lparr>store_calls := Suc (store_calls w)\<rparr>))),
                     snd (q (w\<lparr>store_calls := Suc (store_calls w)\<rparr>)))"
  by (simp add: execute_def Let_def split: prod.splits)

lemma execute_fail:
  "store_fails en (store_calls w) = Some msg \<Longrightarrow>
   execute en q w = (Inl (StoreError msg), w\<lparr>store_calls := Suc (store_calls w)\<rparr>)"
  by (simp add: execute_def Let_def)

lemma execute_frame:
  assumes "\<And>w. g (snd (q w)) = g w" and "\<And>w n. g (w\<lparr>store_calls := n\<rparr>) = g w"
  shows "g (snd (execute en q w)) = g w"
proof (cases "store_fails en (store_calls w)")
  case None
  then show ?thesis using assms by (simp add: execute_ok)
next
  case (Some msg)
  then show ?thesis using assms by (simp add: execute_fail)
qed

lemma execute_reliable:
  "\<forall>k. store_fails en k = None \<Longrightarrow> \<exists>x. fst (execute en q w) = Inr x"
  by (simp add: execute_ok)

text \<open>Frames of the dispatcher.\<close>

lemma send_email_alert_frame:
  assumes "\<And>w n. g (w\<lparr>clock_reads := n\<rparr>) = g w"
    and "\<And>w a b c d. g (emit (SmtpSend a b c d) w) = g w"
  shows "g (snd (send_email_alert en a m st w)) = g w"
  using assms by (simp add: send_email_alert_def now_def Let_def split: option.splits)

lemma send_webhook_alert_frame:
  assumes "\<And>w n. g (w\<lparr>clock_reads := n\<rparr>) = g w"
    and "\<And>w a b c d t. g (emit (WebhookPost a b c d t) w) = g w"
  shows "g (snd (send_webhook_alert en a m st w)) = g w"
  using assms by (simp add: send_webhook_alert_def now_def Let_def split: webhook_outcome.splits)

lemma insert_alert_history_frame:
  assumes "\<And>w n. g (w\<lparr>store_calls := n\<rparr>) = g w"
    and "\<And>w h. g (w\<lparr>alert_history := h\<rparr>) = g w"
  shows "g (snd (insert_alert_history en row w)) = g w"
  unfolding insert_alert_history_def using assms by (intro execute_frame) simp_all

lemma send_alerts_loop_frame:
  assumes sc: "\<And>w n. g (w\<lparr>store_calls := n\<rparr>) = g w"
    and cr: "\<And>w n. g (w\<lparr>clock_reads := n\<rparr>) = g w"
    and ah: "\<And>w h. g (w\<lparr>alert_history := h\<rparr>) = g w"
    and sm: "\<And>w a b c d. g (emit (SmtpSend a b c d) w) = g w"
    and wh: "\<And>w a b c d t. g (emit (WebhookPost a b c d t) w) = g w"
  shows "g (snd (send_alerts_loop en mid m st alerts w)) = g w"
proof (induction alerts arbitrary: w)
  case Nil
  show ?case by simp
next
  case (Cons alert rest)
  let ?attempt = "seq (if ac_alert_type alert = ''email''
                then send_email_alert en alert m st
                else if ac_alert_type alert = ''webhook''
                then send_webhook_alert en alert m st
                else done_with ())
               (\<lambda>_. insert_alert_history en
                  \<lparr>ah_alert_config_id = ac_id alert, ah_monitor_id = mid,
                   ah_alert_type = ac_alert_type alert,
                   ah_message = mon_name m @ '' is '' @ upper st,
                   ah_was_successful = True\<rparr>)"
  have t: "g (snd (?attempt w)) = g w"
    by (intro seq_frame)
       (simp_all add: send_email_alert_frame[where g=g, OF cr sm]
          send_webhook_alert_frame[where g=g, OF cr wh]
          insert_alert_history_frame[where g=g, OF sc ah])
  obtain r w1 where tw: "?attempt w = (r, w1)" by (cases "?attempt w")
  with t have g1: "g w1 = g w" by simp
  show ?case
  proof (cases r)
    case (Inr u)
    with tw g1 Cons.IH[of w1] show ?thesis by simp
  next
    case (Inl e)
    let ?row = "\<lparr>ah_alert_config_id = ac_id alert, ah_monitor_id = mid,
                   ah_alert_type = ac_alert_type alert,
                   ah_message = ''Failed: '' @ take 200 (error_text e),
                   ah_was_successful = False\<rparr>"
    obtain r2 w2 where iw: "insert_alert_history en ?row w1 = (r2, w2)"
      by (cases "insert_alert_history en ?row w1")
    from insert_alert_history_frame[where g=g, OF sc ah, of en ?row w1] iw g1
    have g2: "g w2 = g w" by simp
    from Inl tw iw g2 Cons.IH[of w2] show ?thesis
      by (cases r2) simp_all
  qed
qed

lemma send_alerts_frame:
  assumes sc: "\<And>w n. g (w\<lparr>store_calls := n\<rparr>) = g w"
    and cr: "\<And>w n. g (w\<lparr>clock_reads := n\<rparr>) = g w"
    and ah: "\<And>w h. g (w\<lparr>alert_history := h\<rparr>) = g w"
    and sm: "\<And>w a b c d. g (emit (SmtpSend a b c d) w) = g w"
    and wh: "\<And>w a b c d t. g (emit (WebhookPost a b c d t) w) = g w"
  shows "g (snd (send_alerts en mid m st w)) = g w"
  unfolding send_alerts_def
  by (intro seq_frame execute_frame send_alerts_loop_frame assms) simp

lemma insert_incident_frame:
  assumes "\<And>w n. g (w\<lparr>store_calls := n\<rparr>) = g w"
    and "\<And>w h. g (w\<lparr>incidents := h\<rparr>) = g w"
  shows "g (snd (insert_incident en mid t w)) = g w"
  unfolding insert_incident_def using assms by (intro execute_frame) simp_all

lemma resolve_incidents_frame:
  assumes sc: "\<And>w n. g (w\<lparr>store_calls := n\<rparr>) = g w"
    and cr: "\<And>w n. g (w\<lparr>clock_reads := n\<rparr>) = g w"
    and ic: "\<And>w h. g (w\<lparr>incidents := h\<rparr>) = g w"
  shows "g (snd (resolve_incidents en t todo w)) = g w"
proof (induction todo arbitrary: w)
  case Nil
  show ?case by simp
next
  case (Cons i rest)
  let ?w1 = "w\<lparr>clock_reads := Suc (clock_reads w)\<rparr>"
  let ?q = "\<lambda>w'. ((), w'\<lparr>incidents :=
                 map (resolve_row (inc_id i) t
                        (whole_seconds (clock en (clock_reads w) - inc_started_at i)))
                     (incidents w')\<rparr>)"
  obtain r w2 where ex: "execute en ?q ?w1 = (r, w2)" by (cases "execute en ?q ?w1")
  have "g (snd (execute en ?q ?w1)) = g ?w1"
    by (intro execute_frame) (simp_all add: sc ic)
  with ex cr have g2: "g w2 = g w" by simp
  from ex g2 Cons.IH[of w2] show ?case
    by (cases r) (simp_all add: now_def Let_def)
qed

lemma status_changed_frame:
  assumes sc: "\<And>w n. g (w\<lparr>store_calls := n\<rparr>) = g w"
    and cr: "\<And>w n. g (w\<lparr>clock_reads := n\<rparr>) = g w"
    and ah: "\<And>w h. g (w\<lparr>alert_history := h\<rparr>) = g w"
    and ic: "\<And>w h. g (w\<lparr>incidents := h\<rparr>) = g w"
    and sm: "\<And>w a b c d. g (emit (SmtpSend a b c d) w) = g w"
    and wh: "\<And>w a b c d t. g (emit (WebhookPost a b c d t) w) = g w"
  shows "g (snd (status_changed en mid m old new t w)) = g w"
  unfolding status_changed_def
  by (auto intro!: seq_frame execute_frame send_alerts_frame insert_incident_frame
        resolve_incidents_frame simp: sc cr ah ic sm wh)



lemma seq_ok2:
  assumes "\<And>w. \<exists>x. fst (m w) = Inr x" and "\<And>x w. fst (f x w) = Inr y"
  shows "fst (seq m f w) = Inr y"
proof (cases "m w")
  case (Pair r w')
  with assms(1)[of w] obtain x where "r = Inr x" by auto
  with Pair assms(2)[of x w'] show ?thesis by (simp add: seq_def)
qed

lemma insert_alert_history_ok:
  "\<forall>k. store_fails en k = None \<Longrightarrow> fst (insert_alert_history en row w) = Inr ()"
  by (simp add: insert_alert_history_def execute_ok)

lemma send_alerts_loop_ok:
  assumes "\<forall>k. store_fails en k = None"
  shows "fst (send_alerts_loop en mid m st alerts w) = Inr ()"
proof (induction alerts arbitrary: w)
  case Nil
  show ?case by simp
next
  case (Cons alert rest)
  show ?case
    using assms Cons.IH
    by (simp add: seq_def insert_alert_history_def execute_ok split: prod.splits sum.splits)
qed

lemma send_alerts_ok:
  assumes "\<forall>k. store_fails en k = None"
  shows "fst (send_alerts en mid m st w) = Inr ()"
  using assms by (simp add: send_alerts_def seq_def execute_ok send_alerts_loop_ok)

lemma insert_incident_ok:
  "\<forall>k. store_fails en k = None \<Longrightarrow> fst (insert_incident en mid t w) = Inr ()"
  by (simp add: insert_incident_def execute_ok)

lemma resolve_incidents_ok:
  assumes "\<forall>k. store_fails en k = None"
  shows "fst (resolve_incidents en t todo w) = Inr ()"
  using assms
  by (induction todo arbitrary: w) (simp_all add: now_def Let_def execute_ok)

lemma status_changed_ok:
  assumes r: "\<forall>k. store_fails en k = None"
  shows "fst (status_changed en mid m old new t w) = Inr ()"
  unfolding status_changed_def
  by (auto intro!: seq_ok2 execute_reliable[OF r]
        simp: send_alerts_ok[OF r] insert_incident_ok[OF r] resolve_incidents_ok[OF r])

lemma update_found_ok:
  assumes r: "\<forall>k. store_fails en k = None"
  shows "fst (update_found en mid is_up m w) = Inr ()"
  unfolding update_found_def
  by (auto simp: now_def Let_def status_changed_ok[OF r] execute_ok r intro!: seq_ok2)

lemma update_monitor_status_ok:
  assumes r: "\<forall>k. store_fails en k = None"
  shows "fst (update_monitor_status en mid is_up w) = Inr ()"
  unfolding update_monitor_status_def
proof (rule seq_ok2)
  show "\<exists>x. fst (execute en (\<lambda>w. (find (\<lambda>m. mon_id m = mid) (monitors w), w)) w) = Inr x" for w
    using r by (rule execute_reliable)
  show "fst ((case found of None \<Rightarrow> done_with ()
              | Some monitor \<Rightarrow> update_found en mid is_up monitor) w') = Inr ()" for found w'
    by (cases found) (simp_all add: update_found_ok[OF r])
qed

subsection \<open>The state machine\<close>

text \<open>
  C3. When the monitor's current status is \<^verbatim>\<open>unknown\<close>, \<^verbatim>\<open>update_monitor_status\<close> leaves
  the incidents table as it was, for an up and for a down result alike and whatever the
  store does; when its two store calls succeed it returns normally and the monitor's row has
  the new status (and the two timestamps), every other row being unchanged.
\<close>

theorem unknown_sets_status_without_incident:
  assumes "find (\<lambda>m. mon_id m = monitor_id) (monitors w) = Some monitor"
    and "mon_current_status monitor = ''unknown''"
  shows "incidents (snd (update_monitor_status en monitor_id is_up w)) = incidents w
       \<and> (store_fails en (store_calls w) = None \<and> store_fails en (Suc (store_calls w)) = None
          \<longrightarrow> fst (update_monitor_status en monitor_id is_up w) = Inr ()
            \<and> monitors (snd (update_monitor_status en monitor_id is_up w))
                = map (\<lambda>row. if mon_id row = monitor_id
                              then row\<lparr>mon_current_status := (if is_up then ''up'' else ''down''),
                                       mon_last_checked_at := Some (clock en (clock_reads w)),
                                       mon_updated_at := Some (clock en (clock_reads w))\<rparr>
                              else row) (monitors w))"
proof (cases "store_fails en (store_calls w)")
  case (Some msg)
  then show ?thesis
    by (simp add: update_monitor_status_def seq_def execute_fail)
next
  case None
  note first = this
  show ?thesis
  proof (cases "store_fails en (Suc (store_calls w))")
    case (Some msg)
    with first assms show ?thesis
      by (simp add: update_monitor_status_def update_found_def seq_def execute_ok execute_fail
            now_def done_with_def Let_def)
  next
    case None
    with first assms show ?thesis
      by (simp add: update_monitor_status_def update_found_def seq_def execute_ok now_def
            done_with_def Let_def apply_update_def cong: map_cong)
  qed
qed

theorem unknown_sets_status_without_incident_witness:
  "find (\<lambda>m. mon_id m = ''m1'') (monitors world0) = Some mon_a
   \<and> mon_current_status mon_a = ''unknown''
   \<and> store_fails env0 (store_calls world0) = None
   \<and> store_fails env0 (Suc (store_calls world0)) = None
   \<and> fst (update_monitor_status env0 ''m1'' False world0) = Inr ()
   \<and> incidents (snd (update_monitor_status env0 ''m1'' False world0)) = []
   \<and> map mon_current_status (monitors (snd (update_monitor_status env0 ''m1'' False world0)))
       = [''down'']"
proof -
  have f: "find (\<lambda>m. mon_id m = ''m1'') (monitors world0) = Some mon_a"
    by (simp add: world0_def mon_a_def)
  have u: "mon_current_status mon_a = ''unknown''"
    by (simp add: mon_a_def)
  from unknown_sets_status_without_incident[OF f u, of env0 False] f u show ?thesis
    by (simp add: world0_def mon_a_def env0_def)
qed

lemma update_found_monitors:
  "monitors (snd (update_found en mid is_up m w))
     = (if fst (update_found en mid is_up m w) = Inr ()
        then map (apply_update mid (if is_up then ''up'' else ''down'') (clock en (clock_reads w))
                   (mon_current_status m \<noteq> (if is_up then ''up'' else ''down'')
                    \<and> mon_current_status m \<noteq> ''unknown'')) (monitors w)
        else monitors w)"
proof -
  let ?new = "if is_up then ''up'' else ''down''"
  let ?t = "clock en (clock_reads w)"
  let ?changed = "mon_current_status m \<noteq> ?new \<and> mon_current_status m \<noteq> ''unknown''"
  let ?w1 = "w\<lparr>clock_reads := Suc (clock_reads w)\<rparr>"
  let ?B = "if ?changed then status_changed en mid m (mon_current_status m) ?new ?t
            else done_with ()"
  let ?F = "\<lambda>_::unit. execute en (\<lambda>w. ((), w\<lparr>monitors :=
                       map (apply_update mid ?new ?t ?changed) (monitors w)\<rparr>))"
  have unf: "update_found en mid is_up m w = seq ?B ?F ?w1"
    by (simp add: update_found_def now_def Let_def)
  obtain r w3 where b: "?B ?w1 = (r, w3)" by (cases "?B ?w1")
  have "monitors (snd (?B ?w1)) = monitors ?w1"
    by (simp add: status_changed_frame[where g=monitors] emit_def)
  with b have m3: "monitors w3 = monitors w" by simp
  show ?thesis
  proof (cases r)
    case (Inl e)
    with b m3 unf show ?thesis by (simp add: seq_def)
  next
    case (Inr u)
    with b have s: "seq ?B ?F ?w1 = ?F () w3" by (simp add: seq_def)
    show ?thesis
    proof (cases "store_fails en (store_calls w3)")
      case None
      with s m3 unf show ?thesis by (simp add: execute_ok)
    next
      case (Some msg)
      with s m3 unf show ?thesis by (simp add: execute_fail)
    qed
  qed
qed

lemma update_monitor_status_monitors:
  assumes "find (\<lambda>m. mon_id m = mid) (monitors w) = Some m"
  shows "monitors (snd (update_monitor_status en mid is_up w))
     = (if fst (update_monitor_status en mid is_up w) = Inr ()
        then map (apply_update mid (if is_up then ''up'' else ''down'') (clock en (clock_reads w))
                   (mon_current_status m \<noteq> (if is_up then ''up'' else ''down'')
                    \<and> mon_current_status m \<noteq> ''unknown'')) (monitors w)
        else monitors w)"
proof (cases "store_fails en (store_calls w)")
  case (Some msg)
  then show ?thesis by (simp add: update_monitor_status_def seq_def execute_fail)
next
  case None
  with assms have "update_monitor_status en mid is_up w
        = update_found en mid is_up m (w\<lparr>store_calls := Suc (store_calls w)\<rparr>)"
    by (simp add: update_monitor_status_def seq_def execute_ok)
  with update_found_monitors[of en mid is_up m "w\<lparr>store_calls := Suc (store_calls w)\<rparr>"]
  show ?thesis by simp
qed

lemma unchanged_keeps_last_status_change:
  "mon_last_status_change_at (apply_update mid new t False row) = mon_last_status_change_at row"
  by (simp add: apply_update_def Let_def)

lemma changed_sets_last_status_change:
  "mon_last_status_change_at (apply_update mid new t True row)
     = (if mon_id row = mid then Some t else mon_last_status_change_at row)"
  by (simp add: apply_update_def Let_def)

text \<open>
  C10, as amended. When the old status is \<^verbatim>\<open>unknown\<close> or equals the new status,
  \<^verbatim>\<open>update_monitor_status\<close> leaves \<^verbatim>\<open>last_status_change_at\<close> of every monitor as it was,
  whether or not a store call fails. On every other invocation that returns normally, that
  is whenever the old status is neither \<^verbatim>\<open>unknown\<close> nor the new status (\<^verbatim>\<open>paused\<close>
  included), the field of the monitor is set to the time read at the start of the call.
\<close>

theorem last_status_change_written_iff_changed:
  assumes "find (\<lambda>m. mon_id m = monitor_id) (monitors w) = Some monitor"
  shows "(mon_current_status monitor = ''unknown''
          \<or> mon_current_status monitor = (if is_up then ''up'' else ''down'')
          \<longrightarrow> map mon_last_status_change_at (monitors (snd (update_monitor_status en monitor_id is_up w)))
                = map mon_last_status_change_at (monitors w))
       \<and> (mon_current_status monitor \<noteq> ''unknown''
          \<and> mon_current_status monitor \<noteq> (if is_up then ''up'' else ''down'')
          \<and> fst (update_monitor_status en monitor_id is_up w) = Inr ()
          \<longrightarrow> map mon_last_status_change_at (monitors (snd (update_monitor_status en monitor_id is_up w)))
                = map (\<lambda>row. if mon_id row = monitor_id then Some (clock en (clock_reads w))
                              else mon_last_status_change_at row) (monitors w))"
proof (intro conjI impI)
  assume "mon_current_status monitor = ''unknown''
          \<or> mon_current_status monitor = (if is_up then ''up'' else ''down'')"
  then have nc: "(mon_current_status monitor \<noteq> (if is_up then ''up'' else ''down'')
                    \<and> mon_current_status monitor \<noteq> ''unknown'') = False"
    by auto
  show "map mon_last_status_change_at (monitors (snd (update_monitor_status en monitor_id is_up w)))
                = map mon_last_status_change_at (monitors w)"
    unfolding update_monitor_status_monitors[OF assms] nc
    by (simp add: unchanged_keeps_last_status_change)
next
  assume a: "mon_current_status monitor \<noteq> ''unknown''
          \<and> mon_current_status monitor \<noteq> (if is_up then ''up'' else ''down'')
          \<and> fst (update_monitor_status en monitor_id is_up w) = Inr ()"
  then have c: "(mon_current_status monitor \<noteq> (if is_up then ''up'' else ''down'')
                    \<and> mon_current_status monitor \<noteq> ''unknown'') = True"
    by auto
  from a have ok: "fst (update_monitor_status en monitor_id is_up w) = Inr ()" by simp
  show "map mon_last_status_change_at (monitors (snd (update_monitor_status en monitor_id is_up w)))
                = map (\<lambda>row. if mon_id row = monitor_id then Some (clock en (clock_reads w))
                              else mon_last_status_change_at row) (monitors w)"
    unfolding update_monitor_status_monitors[OF assms] c
    using ok by (simp add: changed_sets_last_status_change)
qed

text \<open>
  C10 as stated fails: a manual check of a paused monitor that comes back up writes
  \<^verbatim>\<open>last_status_change_at\<close>, though the old status is neither \<^verbatim>\<open>up\<close> nor \<^verbatim>\<open>down\<close>.
\<close>

theorem paused_monitor_counterexample:
  "mon_current_status (hd (monitors world_paused)) = ''paused''
   \<and> map mon_last_status_change_at (monitors world_paused) = [None]
   \<and> map mon_last_status_change_at
        (monitors (snd (update_monitor_status env0 ''m1'' True world_paused)))
       = [Some 1000000000]"
  by (simp add: world_paused_def world0_def mon_a_def env0_def update_monitor_status_def
        update_found_def status_changed_def seq_def execute_def now_def done_with_def Let_def
        apply_update_def)

theorem last_status_change_written_iff_changed_witness:
  "find (\<lambda>m. mon_id m = ''m1'') (monitors world_paused)
     = Some (mon_a\<lparr>mon_current_status := ''paused'', mon_is_active := False\<rparr>)
   \<and> fst (update_monitor_status env0 ''m1'' True world_paused) = Inr ()
   \<and> map mon_last_status_change_at
        (monitors (snd (update_monitor_status env0 ''m1'' True world_paused)))
       = [Some 1000000000]
   \<and> map mon_last_status_change_at
        (monitors (snd (update_monitor_status env0 ''m1'' True world0)))
       = [None]"
proof -
  have f: "find (\<lambda>m. mon_id m = ''m1'') (monitors world_paused)
     = Some (mon_a\<lparr>mon_current_status := ''paused'', mon_is_active := False\<rparr>)"
    by (simp add: world_paused_def world0_def mon_a_def)
  have f0: "find (\<lambda>m. mon_id m = ''m1'') (monitors world0) = Some mon_a"
    by (simp add: world0_def mon_a_def)
  have ok: "fst (update_monitor_status env0 ''m1'' True world_paused) = Inr ()"
    by (rule update_monitor_status_ok) (simp add: env0_def)
  from last_status_change_written_iff_changed[OF f, of True env0]
       last_status_change_written_iff_changed[OF f0, of True env0] f ok
  show ?thesis
    by (simp add: world_paused_def world0_def mon_a_def env0_def)
qed

subsection \<open>Running the engine on the example worlds\<close>

lemmas run_defs = update_monitor_status_def
        update_found_def status_changed_def seq_def execute_def now_def done_with_def Let_def
        apply_update_def send_alerts_def insert_alert_history_def send_email_alert_def
        send_webhook_alert_def emit_def insert_incident_def run_all_checks_def check_monitor_def
        skip_monitor_def run_check_def check_url_def save_check_result_def http_verb_def

text \<open>
  C6 on the code: with no SMTP credentials the email sender returns before any send (the
  trace of outbound requests stays empty), and the dispatcher then writes an alert-history
  row for that config with \<^verbatim>\<open>was_successful\<close> true.
\<close>

theorem email_skipped_logged_successful:
  "smtp_email env0 = [] \<and> smtp_password env0 = []
   \<and> fst (send_alerts env0 ''m1'' (mon_a\<lparr>mon_current_status := ''up''\<rparr>) ''down'' world_email)
       = Inr ()
   \<and> effects (snd (send_alerts env0 ''m1'' (mon_a\<lparr>mon_current_status := ''up''\<rparr>) ''down''
                     world_email)) = []
   \<and> alert_history (snd (send_alerts env0 ''m1'' (mon_a\<lparr>mon_current_status := ''up''\<rparr>) ''down''
                           world_email))
       = [\<lparr>ah_alert_config_id = ''a1'', ah_monitor_id = ''m1'', ah_alert_type = ''email'',
           ah_message = ''API is DOWN'', ah_was_successful = True\<rparr>]"
proof -
  have u: "upper ''down'' = ''DOWN''" by code_simp
  show ?thesis
    by (simp add: run_defs world_email_def world0_def mon_a_def env0_def u)
qed

text \<open>
  C7 on the code: a webhook destination that answers 500 raises nothing in
  \<^verbatim>\<open>_send_webhook_alert\<close>, and the dispatcher writes the row for that attempt with
  \<^verbatim>\<open>was_successful\<close> true.
\<close>

theorem webhook_500_logged_successful:
  "webhook_reply env0 0 ''https://hooks.example.com/x'' = WebhookResponse 500
   \<and> fst (send_alerts env0 ''m1'' (mon_a\<lparr>mon_current_status := ''up''\<rparr>) ''down'' world_webhook)
       = Inr ()
   \<and> effects (snd (send_alerts env0 ''m1'' (mon_a\<lparr>mon_current_status := ''up''\<rparr>) ''down''
                     world_webhook))
       = [WebhookPost ''https://hooks.example.com/x'' ''API'' ''https://down.example.com''
            ''down'' 1000000000]
   \<and> alert_history (snd (send_alerts env0 ''m1'' (mon_a\<lparr>mon_current_status := ''up''\<rparr>) ''down''
                           world_webhook))
       = [\<lparr>ah_alert_config_id = ''a2'', ah_monitor_id = ''m1'', ah_alert_type = ''webhook'',
           ah_message = ''API is DOWN'', ah_was_successful = True\<rparr>]"
proof -
  have u: "upper ''down'' = ''DOWN''" by code_simp
  show ?thesis
    by (simp add: run_defs world_webhook_def world0_def mon_a_def env0_def u)
qed



subsection \<open>The scheduler\<close>















subsection \<open>Resolving the open incidents\<close>

lemma seq_after_ok: "fst (m w) = Inr x \<Longrightarrow> seq m f w = f x (snd (m w))"
  by (cases "m w") (simp add: seq_def)

lemma resolve_incidents_table:
  assumes "\<forall>k. store_fails en k = None"
  shows "incidents (snd (resolve_incidents en t todo w))
           = map (resolved_one en t (clock_reads w) todo) (incidents w)"
  using assms
proof (induction todo arbitrary: w)
  case Nil
  show ?case by simp
next
  case (Cons i rest)
  then show ?case
    by (simp add: now_def Let_def execute_ok)
qed

lemma resolve_row_id [simp]: "inc_id (resolve_row ident t d row) = inc_id row"
  by (simp add: resolve_row_def)

lemma resolved_one_other:
  "inc_id row \<notin> inc_id ` set todo \<Longrightarrow> resolved_one en t c todo row = row"
  by (induction todo arbitrary: c) (simp_all add: resolve_row_def)

lemma resolved_one_hit:
  assumes "distinct (map inc_id todo)" and "j < length todo" and "inc_id row = inc_id (todo ! j)"
  shows "resolved_one en t c todo row
           = row\<lparr>inc_resolved_at := Some t,
                 inc_duration_seconds :=
                   Some (whole_seconds (clock en (c + j) - inc_started_at (todo ! j))),
                 inc_is_resolved := True\<rparr>"
  using assms
proof (induction todo arbitrary: c j)
  case Nil
  then show ?case by simp
next
  case (Cons i rest)
  show ?case
  proof (cases j)
    case 0
    with Cons.prems have "inc_id row = inc_id i" and "inc_id i \<notin> inc_id ` set rest"
      by auto
    then show ?thesis
      using 0 by (simp add: resolved_one_other resolve_row_def)
  next
    case (Suc j')
    with Cons.prems have j': "j' < length rest" and id: "inc_id row = inc_id (rest ! j')"
      and d: "distinct (map inc_id rest)" and ni: "inc_id i \<notin> inc_id ` set rest"
      by auto
    from j' id ni have "inc_id row \<noteq> inc_id i"
      by (metis imageI nth_mem)
    with Cons.IH[OF d j' id, of "Suc c"] Suc show ?thesis
      by (simp add: resolve_row_def)
  qed
qed

lemma filter_nth_at:
  assumes "n < length xs" and "P (xs ! n)"
  shows "length (filter P (take n xs)) < length (filter P xs)
       \<and> filter P xs ! length (filter P (take n xs)) = xs ! n"
proof -
  from assms(1) have "xs = take n xs @ xs ! n # drop (Suc n) xs"
    by (simp add: id_take_nth_drop)
  then have "filter P xs = filter P (take n xs) @ xs ! n # filter P (drop (Suc n) xs)"
    using assms(2) by (metis filter.simps(2) filter_append)
  then show ?thesis by (simp add: nth_append)
qed

lemma down_to_up_incidents:
  assumes found: "find (\<lambda>m. mon_id m = mid) (monitors w) = Some m"
    and down: "mon_current_status m = ''down''"
    and rel: "\<forall>k. store_fails en k = None"
  shows "incidents (snd (update_monitor_status en mid True w))
           = map (resolved_one en (clock en (clock_reads w)) (Suc (clock_reads w))
                    (filter (\<lambda>i. inc_monitor_id i = mid \<and> \<not> inc_is_resolved i) (incidents w)))
                 (incidents w)"
proof -
  let ?t = "clock en (clock_reads w)"
  let ?todo = "filter (\<lambda>i. inc_monitor_id i = mid \<and> \<not> inc_is_resolved i) (incidents w)"
  let ?w0 = "w\<lparr>store_calls := Suc (store_calls w)\<rparr>"
  let ?w1 = "?w0\<lparr>clock_reads := Suc (clock_reads w)\<rparr>"
  let ?w2 = "?w1\<lparr>store_calls := Suc (Suc (store_calls w))\<rparr>"
  let ?F = "\<lambda>_::unit. execute en (\<lambda>w. ((), w\<lparr>monitors :=
                       map (apply_update mid ''up'' ?t True) (monitors w)\<rparr>))"
  let ?S = "\<lambda>_::unit. send_alerts en mid m ''up''"
  have u0: "update_monitor_status en mid True w = update_found en mid True m ?w0"
    using found rel by (simp add: update_monitor_status_def seq_def execute_ok)
  have u1: "update_found en mid True m ?w0
              = seq (status_changed en mid m ''down'' ''up'' ?t) ?F ?w1"
    using down by (simp add: update_found_def now_def Let_def)
  have u2: "seq (status_changed en mid m ''down'' ''up'' ?t) ?F ?w1
              = ?F () (snd (status_changed en mid m ''down'' ''up'' ?t ?w1))"
    by (rule seq_after_ok) (rule status_changed_ok[OF rel])
  have u3: "incidents (snd (?F () w')) = incidents w'" for w'
    by (rule execute_frame) simp_all
  have s1: "status_changed en mid m ''down'' ''up'' ?t ?w1
              = seq (resolve_incidents en ?t ?todo) ?S ?w2"
    using rel by (simp add: status_changed_def seq_def execute_ok)
  have s2: "seq (resolve_incidents en ?t ?todo) ?S ?w2
              = ?S () (snd (resolve_incidents en ?t ?todo ?w2))"
    by (rule seq_after_ok) (rule resolve_incidents_ok[OF rel])
  have s3: "incidents (snd (?S () w')) = incidents w'" for w'
    by (rule send_alerts_frame) (simp_all add: emit_def)
  have s4: "incidents (snd (resolve_incidents en ?t ?todo ?w2))
              = map (resolved_one en ?t (Suc (clock_reads w)) ?todo) (incidents w)"
    using resolve_incidents_table[OF rel, of ?t ?todo ?w2] by simp
  show ?thesis
    unfolding u0 u1 u2 u3 s1 s2 s3 s4 ..
qed

text \<open>
  C4, as amended. On a transition from \<^verbatim>\<open>down\<close> to \<^verbatim>\<open>up\<close>, with a store that answers
  every call and incident ids that are distinct, \<^verbatim>\<open>update_monitor_status\<close> returns normally
  and rewrites exactly the open incidents of the monitor: each gets \<^verbatim>\<open>is_resolved\<close> true,
  \<^verbatim>\<open>resolved_at\<close> the time \<open>now\<close> read at the start of the call, and
  \<^verbatim>\<open>duration_seconds\<close> the whole seconds, fraction dropped, from its \<^verbatim>\<open>started_at\<close> to
  a reading of the clock of its own, taken when the loop reaches it (the reading after
  \<open>now\<close> for the first open incident, the next one for the second, and so on). Every other
  incident stays as it was.
\<close>

theorem down_to_up_resolves_open_incidents:
  assumes found: "find (\<lambda>m. mon_id m = monitor_id) (monitors w) = Some monitor"
    and down: "mon_current_status monitor = ''down''"
    and rel: "\<forall>k. store_fails en k = None"
    and dist: "distinct (map inc_id (incidents w))"
  shows "fst (update_monitor_status en monitor_id True w) = Inr ()
       \<and> length (incidents (snd (update_monitor_status en monitor_id True w)))
           = length (incidents w)
       \<and> (\<forall>n < length (incidents w).
             incidents (snd (update_monitor_status en monitor_id True w)) ! n
               = (if inc_monitor_id (incidents w ! n) = monitor_id
                     \<and> \<not> inc_is_resolved (incidents w ! n)
                  then (incidents w ! n)
                         \<lparr>inc_resolved_at := Some (clock en (clock_reads w)),
                          inc_duration_seconds :=
                            Some (whole_seconds
                                    (clock en (Suc (clock_reads w)
                                        + length (filter (\<lambda>i. inc_monitor_id i = monitor_id
                                                               \<and> \<not> inc_is_resolved i)
                                                    (take n (incidents w))))
                                     - inc_started_at (incidents w ! n))),
                          inc_is_resolved := True\<rparr>
                  else incidents w ! n))"
proof (intro conjI allI impI)
  let ?P = "\<lambda>i. inc_monitor_id i = monitor_id \<and> \<not> inc_is_resolved i"
  let ?rows = "incidents w"
  let ?todo = "filter ?P ?rows"
  let ?t = "clock en (clock_reads w)"
  note tab = down_to_up_incidents[OF found down rel]
  show "fst (update_monitor_status en monitor_id True w) = Inr ()"
    by (rule update_monitor_status_ok[OF rel])
  show "length (incidents (snd (update_monitor_status en monitor_id True w))) = length ?rows"
    by (simp add: tab)
  fix n assume n: "n < length ?rows"
  have dt: "distinct (map inc_id ?todo)"
    using dist by (rule distinct_map_filter)
  show "incidents (snd (update_monitor_status en monitor_id True w)) ! n
               = (if ?P (?rows ! n)
                  then (?rows ! n)
                         \<lparr>inc_resolved_at := Some ?t,
                          inc_duration_seconds :=
                            Some (whole_seconds
                                    (clock en (Suc (clock_reads w)
                                        + length (filter ?P (take n ?rows)))
                                     - inc_started_at (?rows ! n))),
                          inc_is_resolved := True\<rparr>
                  else ?rows ! n)"
  proof (cases "?P (?rows ! n)")
    case True
    from filter_nth_at[of n ?rows ?P, OF n True]
    have j: "length (filter ?P (take n ?rows)) < length ?todo"
      and at: "?todo ! length (filter ?P (take n ?rows)) = ?rows ! n"
      by simp_all
    from resolved_one_hit[OF dt j, of "?rows ! n" en ?t "Suc (clock_reads w)"] at
    have "resolved_one en ?t (Suc (clock_reads w)) ?todo (?rows ! n)
            = (?rows ! n)\<lparr>inc_resolved_at := Some ?t,
                          inc_duration_seconds :=
                            Some (whole_seconds
                                    (clock en (Suc (clock_reads w)
                                        + length (filter ?P (take n ?rows)))
                                     - inc_started_at (?rows ! n))),
                          inc_is_resolved := True\<rparr>"
      by simp
    with True n show ?thesis by (simp add: tab)
  next
    case False
    have "inc_id (?rows ! n) \<notin> inc_id ` set ?todo"
    proof
      assume "inc_id (?rows ! n) \<in> inc_id ` set ?todo"
      then obtain x where x: "x \<in> set ?rows" "?P x" "inc_id x = inc_id (?rows ! n)"
        by auto
      from dist have "inj_on inc_id (set ?rows)" by (simp add: distinct_map)
      with x n have "x = ?rows ! n" by (auto dest: inj_onD)
      with x False show False by simp
    qed
    then have "resolved_one en ?t (Suc (clock_reads w)) ?todo (?rows ! n) = ?rows ! n"
      by (rule resolved_one_other)
    with False n show ?thesis by (auto simp: tab)
  qed
qed

text \<open>
  C4 as stated fails on the duration: an incident open for 10.9 s at \<open>now\<close>, resolved by a
  loop round that reads the clock 0.2 s later, gets \<^verbatim>\<open>duration_seconds = 11\<close>, which is not
  \<^verbatim>\<open>resolved_at - started_at\<close>.
\<close>

theorem duration_not_exact_counterexample:
  "incidents (snd (update_monitor_status env0 ''m1'' True world_down))
     = [\<lparr>inc_id = 1, inc_monitor_id = ''m1'', inc_started_at = 500000000,
         inc_resolved_at = Some 560000000, inc_duration_seconds = Some 60,
         inc_is_resolved = True\<rparr>,
        \<lparr>inc_id = 2, inc_monitor_id = ''m2'', inc_started_at = 900000000,
         inc_resolved_at = None, inc_duration_seconds = None, inc_is_resolved = False\<rparr>,
        \<lparr>inc_id = 3, inc_monitor_id = ''m1'', inc_started_at = 989100000,
         inc_resolved_at = Some 1000000000, inc_duration_seconds = Some 11,
         inc_is_resolved = True\<rparr>]
   \<and> (11::int) * 1000000 \<noteq> 1000000000 - 989100000"
  by (simp add: run_defs world_down_def world0_def mon_a_def env0_def resolve_row_def
        whole_seconds_def)

theorem down_to_up_resolves_open_incidents_witness:
  "find (\<lambda>m. mon_id m = ''m1'') (monitors world_down)
     = Some (mon_a\<lparr>mon_current_status := ''down''\<rparr>)
   \<and> mon_current_status (mon_a\<lparr>mon_current_status := ''down''\<rparr>) = ''down''
   \<and> (\<forall>k. store_fails env0 k = None)
   \<and> distinct (map inc_id (incidents world_down))
   \<and> (2::nat) < length (incidents world_down)
   \<and> fst (update_monitor_status env0 ''m1'' True world_down) = Inr ()
   \<and> incidents (snd (update_monitor_status env0 ''m1'' True world_down)) ! 2
       = \<lparr>inc_id = 3, inc_monitor_id = ''m1'', inc_started_at = 989100000,
          inc_resolved_at = Some 1000000000, inc_duration_seconds = Some 11,
          inc_is_resolved = True\<rparr>
   \<and> incidents (snd (update_monitor_status env0 ''m1'' True world_down)) ! 1
       = incidents world_down ! 1"
proof -
  have f: "find (\<lambda>m. mon_id m = ''m1'') (monitors world_down)
     = Some (mon_a\<lparr>mon_current_status := ''down''\<rparr>)"
    by (simp add: world_down_def world0_def mon_a_def)
  have d: "mon_current_status (mon_a\<lparr>mon_current_status := ''down''\<rparr>) = ''down''"
    by simp
  have r: "\<forall>k. store_fails env0 k = None"
    by (simp add: env0_def)
  have i: "distinct (map inc_id (incidents world_down))"
    by (simp add: world_down_def world0_def)
  have l: "(2::nat) < length (incidents world_down)" "(1::nat) < length (incidents world_down)"
    by (simp_all add: world_down_def world0_def)
  note th = down_to_up_resolves_open_incidents[OF f d r i]
  from th have ok: "fst (update_monitor_status env0 ''m1'' True world_down) = Inr ()"
    by simp
  from th l(1) have two: "incidents (snd (update_monitor_status env0 ''m1'' True world_down)) ! 2
       = \<lparr>inc_id = 3, inc_monitor_id = ''m1'', inc_started_at = 989100000,
          inc_resolved_at = Some 1000000000, inc_duration_seconds = Some 11,
          inc_is_resolved = True\<rparr>"
    by (simp add: world_down_def world0_def env0_def whole_seconds_def numeral_2_eq_2)
  from th l(2) have one: "incidents (snd (update_monitor_status env0 ''m1'' True world_down)) ! 1
       = incidents world_down ! 1"
    by (simp add: world_down_def world0_def)
  from f d r i l ok two one show ?thesis by simp
qed

subsection \<open>Which monitors a cycle checks\<close>







end
